theory Spec2Isabelle
  imports Complex_Main
begin

section \<open>Data model of \<open>expresso/compression.py\<close>\<close>

text \<open>
  The module raises its own \<open>CompressionError\<close> (with a message); everything else that
  can go wrong is raised inside numpy: \<open>TypeError\<close> when \<open>np.zeros\<close> is handed a float,
  \<open>ValueError\<close> when the values cannot be broadcast to the index array, \<open>IndexError\<close>
  when an index is out of bounds.
\<close>

datatype error = CompressionError string | TypeError | ValueError | IndexError

datatype warning = UserWarning string

text \<open>
  A numpy array of 64-bit floats: its shape and its elements in row-major order.
  Elements are the real numbers the (finite) floats denote; \<open>abs\<close> and comparison are
  exact on them (NaN is not represented). A well-formed array has as many elements as the product of its shape;
  the shape \<open>()\<close> of a 0-d array is the empty list (one element).
\<close>

record ndarray =
  nd_shape :: "nat list"
  nd_data :: "real list"

definition wf_ndarray :: "ndarray \<Rightarrow> bool" where
  "wf_ndarray a \<longleftrightarrow> length (nd_data a) = prod_list (nd_shape a)"

definition flatten :: "ndarray \<Rightarrow> real list" where
  "flatten a = nd_data a"

definition nbytes :: "ndarray \<Rightarrow> int" where
  "nbytes a = int (length (nd_data a)) * 8"

text \<open>
  The dictionary built by the compressors. \<open>env_method\<close> is the result of
  \<open>compressed_data.get("method")\<close>: \<open>None\<close> when the key is absent.
  Indices are Python integers (numpy's \<open>intp\<close>), so they may be negative in a
  dictionary that did not come from \<open>compress_skymap\<close>.
\<close>

record envelope =
  env_method :: "string option"
  env_shape :: "nat list"
  env_indices :: "int list"
  env_values :: "real list"
  env_compression_ratio :: real
  env_original_size :: int
  env_compressed_size :: int

record compression_info =
  info_method :: string
  original_size_bytes :: int
  compressed_size_bytes :: int
  info_compression_ratio :: real
  space_saved_percent :: real
  info_shape :: "nat list"

section \<open>numpy and Python primitives used by the module\<close>

text \<open>\<open>int(x)\<close> on a float truncates towards zero.\<close>

definition py_int :: "real \<Rightarrow> int" where
  "py_int x = (if 0 \<le> x then \<lfloor>x\<rfloor> else \<lceil>x\<rceil>)"

text \<open>
  \<open>np.argsort(keys)\<close>: the indices that sort \<open>keys\<close> ascending. numpy's default sort
  kind does not promise an order among equal keys; the model fixes one, that of a stable
  sort (equal keys keep their original order). Nothing proved below for all arrays depends
  on that choice: only evaluations at arrays with equal magnitudes do.
\<close>

definition argsort :: "real list \<Rightarrow> nat list" where
  "argsort keys = map snd (sort_key fst (zip keys [0..<length keys]))"

text \<open>The slice \<open>xs[-n:]\<close>.\<close>

definition neg_slice :: "int \<Rightarrow> 'a list \<Rightarrow> 'a list" where
  "neg_slice n xs =
     (if 0 < n then drop (length xs - nat n) xs else drop (nat (- n)) xs)"

text \<open>
  \<open>np.zeros(np.prod(shape))\<close>: \<open>np.prod(())\<close> is the float \<open>1.0\<close>, which
  \<open>np.zeros\<close> refuses as a size; any other shape gives an integer product.
\<close>

definition zeros_prod :: "nat list \<Rightarrow> error + real list" where
  "zeros_prod shp = (if shp = [] then Inl TypeError else Inr (replicate (prod_list shp) 0))"

text \<open>
  \<open>flat_map[indices] = values\<close> on a one-dimensional buffer. The values are broadcast
  to the index array first (equal lengths, or a single value repeated), then every index
  is checked (negative indices count from the end), then the values are stored in order,
  so that the last one wins at a repeated index.
\<close>

definition broadcast_values :: "nat \<Rightarrow> real list \<Rightarrow> error + real list" where
  "broadcast_values k vs =
     (if length vs = k then Inr vs
      else if length vs = 1 then Inr (replicate k (hd vs))
      else Inl ValueError)"

definition index_ok :: "nat \<Rightarrow> int \<Rightarrow> bool" where
  "index_ok n i \<longleftrightarrow> - int n \<le> i \<and> i < int n"

definition norm_index :: "nat \<Rightarrow> int \<Rightarrow> nat" where
  "norm_index n i = (if i < 0 then nat (i + int n) else nat i)"

fun store_all :: "real list \<Rightarrow> (nat \<times> real) list \<Rightarrow> real list" where
  "store_all buf [] = buf"
| "store_all buf ((i, v) # ps) = store_all (buf[i := v]) ps"

definition scatter :: "real list \<Rightarrow> int list \<Rightarrow> real list \<Rightarrow> error + real list" where
  "scatter buf inds vs =
     (case broadcast_values (length inds) vs of
        Inl e \<Rightarrow> Inl e
      | Inr ws \<Rightarrow>
          if list_all (index_ok (length buf)) inds
          then Inr (store_all buf (zip (map (norm_index (length buf)) inds) ws))
          else Inl IndexError)"

section \<open>Double-precision arithmetic\<close>

text \<open>
  A Python float is an IEEE 754 binary64 number, here the real number it denotes. Every
  arithmetic operation returns the double nearest to the exact result, ties going to the
  even significand: \<open>to_double\<close>. A positive \<open>x\<close> with \<open>2 ^ k \<le> x < 2 ^ (k + 1)\<close> is
  rounded to a multiple of \<open>2 ^ (k - 52)\<close>, and of \<open>2 ^ -1074\<close> in the subnormal range.
  \<open>ilog2\<close> finds \<open>k\<close> by halving or doubling, at most 1100 times, which covers the
  whole exponent range. Overflow to infinity (results of \<open>2 ^ 1024\<close> and more) is not
  represented; no size or ratio handled below comes near it. A ratio written as a decimal
  literal reaches the code as the double nearest to it: \<open>0.4\<close> is \<open>to_double (2 / 5)\<close>.
\<close>

fun lg_up :: "nat \<Rightarrow> real \<Rightarrow> int" where
  "lg_up 0 x = 0"
| "lg_up (Suc n) x = (if x < 2 then 0 else 1 + lg_up n (x / 2))"

fun lg_down :: "nat \<Rightarrow> real \<Rightarrow> int" where
  "lg_down 0 x = 0"
| "lg_down (Suc n) x = (if 1 \<le> x then 0 else lg_down n (x * 2) - 1)"

definition ilog2 :: "real \<Rightarrow> int" where
  "ilog2 x = (if 1 \<le> x then lg_up 1100 x else lg_down 1100 x)"

definition pow2 :: "int \<Rightarrow> real" where
  "pow2 e = (if 0 \<le> e then 2 ^ nat e else 1 / 2 ^ nat (- e))"

definition ulp_exp :: "real \<Rightarrow> int" where
  "ulp_exp x = max (- 1074) (ilog2 x - 52)"

definition round_half_even :: "real \<Rightarrow> int" where
  "round_half_even m =
     (let f = \<lfloor>m\<rfloor>; d = m - of_int f
      in if d < 1 / 2 then f else if 1 / 2 < d then f + 1 else if even f then f else f + 1)"

definition round_pos :: "real \<Rightarrow> real" where
  "round_pos x = of_int (round_half_even (x / pow2 (ulp_exp x))) * pow2 (ulp_exp x)"

definition to_double :: "real \<Rightarrow> real" where
  "to_double x = (if x = 0 then 0 else if 0 < x then round_pos x else - round_pos (- x))"

section \<open>The compressors\<close>

text \<open>
  \<open>n_keep = max(1, int(len(flat_map) * compression_ratio))\<close>: Python converts the
  length to a float, multiplies in double precision and truncates the rounded product.
\<close>

definition n_keep :: "real list \<Rightarrow> real \<Rightarrow> int" where
  "n_keep flat_map ratio =
     max 1 (py_int (to_double (to_double (real (length flat_map)) * ratio)))"

definition compress_wavelet :: "ndarray \<Rightarrow> real \<Rightarrow> envelope" where
  "compress_wavelet skymap ratio =
     (let flat_map = flatten skymap;
          inds = neg_slice (n_keep flat_map ratio) (argsort (map abs flat_map));
          compressed_values = map (\<lambda>i. flat_map ! i) inds
      in \<lparr> env_method = Some ''wavelet'',
           env_shape = nd_shape skymap,
           env_indices = map int inds,
           env_values = compressed_values,
           env_compression_ratio = ratio,
           env_original_size = nbytes skymap,
           env_compressed_size =
             int (length inds) * 8 + int (length compressed_values) * 8 \<rparr>)"

definition decompress_wavelet :: "envelope \<Rightarrow> error + ndarray" where
  "decompress_wavelet compressed_data =
     (case zeros_prod (env_shape compressed_data) of
        Inl e \<Rightarrow> Inl e
      | Inr zeros \<Rightarrow>
          (case scatter zeros (env_indices compressed_data) (env_values compressed_data) of
             Inl e \<Rightarrow> Inl e
           | Inr flat_map \<Rightarrow>
               Inr \<lparr> nd_shape = env_shape compressed_data, nd_data = flat_map \<rparr>))"

definition compress_pca :: "ndarray \<Rightarrow> real \<Rightarrow> warning list \<times> envelope" where
  "compress_pca skymap ratio =
     ([UserWarning ''PCA compression is not yet fully implemented''],
      compress_wavelet skymap ratio)"

definition decompress_pca :: "envelope \<Rightarrow> warning list \<times> (error + ndarray)" where
  "decompress_pca compressed_data =
     ([UserWarning ''PCA decompression is not yet fully implemented''],
      decompress_wavelet compressed_data)"

definition compress_svd :: "ndarray \<Rightarrow> real \<Rightarrow> warning list \<times> envelope" where
  "compress_svd skymap ratio =
     ([UserWarning ''SVD compression is not yet fully implemented''],
      compress_wavelet skymap ratio)"

definition decompress_svd :: "envelope \<Rightarrow> warning list \<times> (error + ndarray)" where
  "decompress_svd compressed_data =
     ([UserWarning ''SVD decompression is not yet fully implemented''],
      decompress_wavelet compressed_data)"

section \<open>The public functions\<close>

text \<open>
  Each returns the warnings it emitted together with either the exception it raised or
  its result. The argument of \<open>compress_skymap\<close> is an \<open>ndarray\<close> and that of
  \<open>decompress_skymap\<close> a dictionary, so the two \<open>isinstance\<close> checks pass.
\<close>

definition compress_skymap ::
  "ndarray \<Rightarrow> string \<Rightarrow> real \<Rightarrow> warning list \<times> (error + envelope)" where
  "compress_skymap skymap method ratio =
     (if \<not> (0 < ratio \<and> ratio < 1)
      then ([], Inl (CompressionError ''Compression ratio must be between 0 and 1''))
      else if method = ''wavelet'' then ([], Inr (compress_wavelet skymap ratio))
      else if method = ''pca''
        then (fst (compress_pca skymap ratio), Inr (snd (compress_pca skymap ratio)))
      else if method = ''svd''
        then (fst (compress_svd skymap ratio), Inr (snd (compress_svd skymap ratio)))
      else ([], Inl (CompressionError (''Unknown compression method: '' @ method))))"

definition decompress_skymap :: "envelope \<Rightarrow> warning list \<times> (error + ndarray)" where
  "decompress_skymap compressed_data =
     (case env_method compressed_data of
        None \<Rightarrow> ([], Inl (CompressionError ''Compression method not found in data''))
      | Some method \<Rightarrow>
          if method = ''wavelet'' then ([], decompress_wavelet compressed_data)
          else if method = ''pca'' then decompress_pca compressed_data
          else if method = ''svd'' then decompress_svd compressed_data
          else ([], Inl (CompressionError (''Unknown compression method: '' @ method))))"

definition get_compression_info :: "envelope \<Rightarrow> compression_info" where
  "get_compression_info compressed_data =
     (let original_size = env_original_size compressed_data;
          compressed_size = env_compressed_size compressed_data;
          ratio = (if 0 < original_size
                   then to_double (real_of_int compressed_size / real_of_int original_size)
                   else 0)
      in \<lparr> info_method =
             (case env_method compressed_data of None \<Rightarrow> ''unknown'' | Some m \<Rightarrow> m),
           original_size_bytes = original_size,
           compressed_size_bytes = compressed_size,
           info_compression_ratio = ratio,
           space_saved_percent = to_double (to_double (1 - ratio) * 100),
           info_shape = env_shape compressed_data \<rparr>)"

section \<open>The selection rule as the specification words it\<close>

text \<open>
  \<open>n_keep = max(1, floor(N * r))\<close>; rank all coefficients by absolute magnitude,
  descending, equal magnitudes by ascending original index; select the top \<open>n_keep\<close>;
  output the selected indices in ascending order.
\<close>

definition n_keep_spec :: "nat \<Rightarrow> real \<Rightarrow> int" where
  "n_keep_spec N r = max 1 \<lfloor>real N * r\<rfloor>"

definition spec_rank :: "real list \<Rightarrow> nat list" where
  "spec_rank cs = map snd (sort_key (\<lambda>p. - \<bar>fst p\<bar>) (zip cs [0..<length cs]))"

definition spec_select :: "real list \<Rightarrow> real \<Rightarrow> nat list" where
  "spec_select cs r = sort (take (nat (n_keep_spec (length cs) r)) (spec_rank cs))"

section \<open>Concrete inputs\<close>

definition example_map :: ndarray where
  "example_map = \<lparr> nd_shape = [5], nd_data = [5, -1, 3, 0, 2] \<rparr>"

definition tied_map :: ndarray where
  "tied_map = \<lparr> nd_shape = [2], nd_data = [1, 1] \<rparr>"

definition single_map :: ndarray where
  "single_map = \<lparr> nd_shape = [1], nd_data = [5] \<rparr>"

definition empty_map :: ndarray where
  "empty_map = \<lparr> nd_shape = [0], nd_data = [] \<rparr>"

definition zero_dim_map :: ndarray where
  "zero_dim_map = \<lparr> nd_shape = [], nd_data = [5] \<rparr>"

definition fifty_map :: ndarray where
  "fifty_map = \<lparr> nd_shape = [50], nd_data = replicate 50 0 \<rparr>"

definition thousand_map :: ndarray where
  "thousand_map = \<lparr> nd_shape = [1000], nd_data = replicate 1000 0 \<rparr>"

definition out_of_range_envelope :: envelope where
  "out_of_range_envelope =
     \<lparr> env_method = Some ''wavelet'', env_shape = [3], env_indices = [5],
       env_values = [1], env_compression_ratio = 1 / 2,
       env_original_size = 24, env_compressed_size = 16 \<rparr>"

definition mismatched_envelope :: envelope where
  "mismatched_envelope =
     \<lparr> env_method = Some ''wavelet'', env_shape = [3], env_indices = [0, 1],
       env_values = [7], env_compression_ratio = 1 / 2,
       env_original_size = 24, env_compressed_size = 24 \<rparr>"

section \<open>Sorting and selection\<close>

lemma argsort_length: "length (argsort ks) = length ks"
  by (simp add: argsort_def)

lemma argsort_set: "set (argsort ks) = {0..<length ks}"
proof -
  have "map snd (zip ks [0..<length ks]) = [0..<length ks]"
    by (rule map_snd_zip) simp
  then have "snd ` set (zip ks [0..<length ks]) = set [0..<length ks]"
    by (metis set_map)
  then show ?thesis by (simp add: argsort_def)
qed

lemma argsort_distinct: "distinct (argsort ks)"
proof -
  have "map snd (zip ks [0..<length ks]) = [0..<length ks]"
    by (rule map_snd_zip) simp
  then have "distinct (map snd (zip ks [0..<length ks]))"
    by simp
  then have "distinct (zip ks [0..<length ks]) \<and> inj_on snd (set (zip ks [0..<length ks]))"
    by (simp only: distinct_map)
  then show ?thesis
    by (simp add: argsort_def distinct_map)
qed

lemma argsort_keys:
  "map (\<lambda>i. ks ! i) (argsort ks) = map fst (sort_key fst (zip ks [0..<length ks]))"
proof -
  have "\<And>p. p \<in> set (zip ks [0..<length ks]) \<Longrightarrow> ks ! snd p = fst p"
    by (auto simp: set_zip)
  then show ?thesis
    by (simp add: argsort_def)
qed

lemma argsort_sorted: "sorted (map (\<lambda>i. ks ! i) (argsort ks))"
  by (simp add: argsort_keys sorted_sort_key)

lemma dropped_le_kept:
  assumes "i \<in> set (drop k (argsort ks))" and "j < length ks"
    and "j \<notin> set (drop k (argsort ks))"
  shows "ks ! j \<le> ks ! i"
proof -
  have "j \<in> set (argsort ks)" using assms(2) by (simp add: argsort_set)
  then have "j \<in> set (take k (argsort ks) @ drop k (argsort ks))" by simp
  with assms(3) have j: "j \<in> set (take k (argsort ks))"
    by (simp only: set_append Un_iff) blast
  have "sorted (map (\<lambda>i. ks ! i) (take k (argsort ks)) @ map (\<lambda>i. ks ! i) (drop k (argsort ks)))"
    using argsort_sorted [of ks] by (simp only: map_append [symmetric] append_take_drop_id)
  then have "\<forall>x\<in>set (take k (argsort ks)). \<forall>y\<in>set (drop k (argsort ks)). ks ! x \<le> ks ! y"
    unfolding sorted_append by simp
  with j assms(1) show ?thesis by blast
qed

lemma kept_props:
  fixes xs :: "real list" and k :: nat
  defines "K \<equiv> drop k (argsort (map abs xs))"
  shows "distinct K" and "set K \<subseteq> {0..<length xs}"
    and "\<And>i j. i \<in> set K \<Longrightarrow> j < length xs \<Longrightarrow> j \<notin> set K \<Longrightarrow> \<bar>xs ! j\<bar> \<le> \<bar>xs ! i\<bar>"
    and "sorted (map (\<lambda>i. \<bar>xs ! i\<bar>) K)"
proof -
  show "distinct K" unfolding K_def by (simp add: argsort_distinct)
  have "set K \<subseteq> set (argsort (map abs xs))" unfolding K_def by (rule set_drop_subset)
  then show sub: "set K \<subseteq> {0..<length xs}" by (simp add: argsort_set)
  show "\<bar>xs ! j\<bar> \<le> \<bar>xs ! i\<bar>" if "i \<in> set K" "j < length xs" "j \<notin> set K" for i j
  proof -
    have "i < length xs" using sub that(1) by auto
    moreover have "map abs xs ! j \<le> map abs xs ! i"
      using dropped_le_kept [of i k "map abs xs" j] that unfolding K_def by simp
    ultimately show ?thesis using that(2) by simp
  qed
  have "sorted (map (\<lambda>i. map abs xs ! i) K)"
    unfolding K_def using argsort_sorted [of "map abs xs"]
    by (simp only: drop_map [symmetric] sorted_wrt_drop)
  moreover have "map (\<lambda>i. map abs xs ! i) K = map (\<lambda>i. \<bar>xs ! i\<bar>) K"
    using sub by (intro map_cong) auto
  ultimately show "sorted (map (\<lambda>i. \<bar>xs ! i\<bar>) K)" by simp
qed

section \<open>Rounding to a double\<close>

lemma lg_down_le: "lg_down n x \<le> 0"
proof (induction n arbitrary: x)
  case 0
  then show ?case by simp
next
  case (Suc n)
  from Suc [of "x * 2"] show ?case by simp
qed

lemma lg_up_le: "x < 2 ^ Suc k \<Longrightarrow> lg_up n x \<le> int k"
proof (induction n arbitrary: x k)
  case 0
  then show ?case by simp
next
  case (Suc n)
  show ?case
  proof (cases "x < 2")
    case True
    then show ?thesis by simp
  next
    case False
    with Suc.prems obtain j where k: "k = Suc j" by (cases k) auto
    from Suc.prems have "x / 2 < 2 ^ Suc j" by (simp add: k)
    from Suc.IH [OF this] False show ?thesis by (simp add: k)
  qed
qed

lemma ulp_exp_le: "x < 2 ^ 53 \<Longrightarrow> ulp_exp x \<le> 0"
proof -
  assume x: "x < 2 ^ 53"
  have "ilog2 x \<le> 52"
  proof (cases "1 \<le> x")
    case True
    have "x < 2 ^ Suc 52" using x by simp
    from lg_up_le [OF this, of 1100] True show ?thesis by (simp add: ilog2_def)
  next
    case False
    have "lg_down 1100 x \<le> 0" by (rule lg_down_le)
    with False show ?thesis by (simp add: ilog2_def)
  qed
  then show ?thesis by (simp add: ulp_exp_def)
qed

lemma pow2_nonpos: "e \<le> 0 \<Longrightarrow> pow2 e = 1 / 2 ^ nat (- e)"
  by (cases "e = 0") (simp_all add: pow2_def)

lemma pow2_pos: "0 < pow2 e"
  by (simp add: pow2_def)

lemma round_half_even_le: "m \<le> of_int J \<Longrightarrow> round_half_even m \<le> J"
proof -
  assume m: "m \<le> of_int J"
  have f: "\<lfloor>m\<rfloor> \<le> J" using m by (simp add: floor_le_iff)
  have "\<lfloor>m\<rfloor> + 1 \<le> J" if "0 < m - of_int \<lfloor>m\<rfloor>"
  proof -
    have "of_int \<lfloor>m\<rfloor> < m" using that by simp
    then have "of_int \<lfloor>m\<rfloor> < (of_int J :: real)" using m by linarith
    then have "\<lfloor>m\<rfloor> < J" by simp
    then show ?thesis by simp
  qed
  with f show ?thesis
    by (auto simp: round_half_even_def Let_def)
qed

lemma round_half_even_ge: "of_int J \<le> m \<Longrightarrow> J \<le> round_half_even m"
proof -
  assume "of_int J \<le> m"
  then have "J \<le> \<lfloor>m\<rfloor>" by (simp add: le_floor_iff)
  then show ?thesis by (auto simp: round_half_even_def Let_def)
qed

lemma round_pos_le_int:
  assumes "x < 2 ^ 53" and "x \<le> of_int K"
  shows "round_pos x \<le> of_int K"
proof -
  define k where "k = nat (- ulp_exp x)"
  have p: "pow2 (ulp_exp x) = 1 / 2 ^ k"
    unfolding k_def by (rule pow2_nonpos) (rule ulp_exp_le [OF assms(1)])
  have "x * 2 ^ k \<le> of_int K * 2 ^ k" using assms(2) by simp
  then have "x / pow2 (ulp_exp x) \<le> of_int (K * 2 ^ k)" by (simp add: p)
  then have "round_half_even (x / pow2 (ulp_exp x)) \<le> K * 2 ^ k"
    by (rule round_half_even_le)
  then have "(of_int (round_half_even (x / pow2 (ulp_exp x))) :: real) \<le> of_int (K * 2 ^ k)"
    by (simp only: of_int_le_iff)
  then have "of_int (round_half_even (x / pow2 (ulp_exp x))) / 2 ^ k \<le> (of_int K :: real)"
    by (simp add: divide_le_eq)
  then show ?thesis by (simp add: round_pos_def p)
qed

lemma round_pos_ge_int:
  assumes "x < 2 ^ 53" and "of_int K \<le> x"
  shows "of_int K \<le> round_pos x"
proof -
  define k where "k = nat (- ulp_exp x)"
  have p: "pow2 (ulp_exp x) = 1 / 2 ^ k"
    unfolding k_def by (rule pow2_nonpos) (rule ulp_exp_le [OF assms(1)])
  have "of_int K * 2 ^ k \<le> x * 2 ^ k" using assms(2) by simp
  then have "of_int (K * 2 ^ k) \<le> x / pow2 (ulp_exp x)" by (simp add: p)
  then have "K * 2 ^ k \<le> round_half_even (x / pow2 (ulp_exp x))"
    by (rule round_half_even_ge)
  then have "(of_int (K * 2 ^ k) :: real) \<le> of_int (round_half_even (x / pow2 (ulp_exp x)))"
    by (simp only: of_int_le_iff)
  then have "(of_int K :: real) \<le> of_int (round_half_even (x / pow2 (ulp_exp x))) / 2 ^ k"
    by (simp add: le_divide_eq)
  then show ?thesis by (simp add: round_pos_def p)
qed

lemma to_double_le_int:
  assumes "0 \<le> x" and "x < 2 ^ 53" and "x \<le> of_int K"
  shows "to_double x \<le> of_int K"
  using assms round_pos_le_int [of x K] by (auto simp: to_double_def)

lemma to_double_ge_int:
  assumes "0 \<le> x" and "x < 2 ^ 53" and "of_int K \<le> x"
  shows "of_int K \<le> to_double x"
  using assms round_pos_ge_int [of x K] by (auto simp: to_double_def)

lemma to_double_of_nat:
  assumes "real N < 2 ^ 53"
  shows "to_double (real N) = real N"
proof -
  have "to_double (real N) \<le> of_int (int N)"
    using assms by (intro to_double_le_int) simp_all
  moreover have "of_int (int N) \<le> to_double (real N)"
    using assms by (intro to_double_ge_int) simp_all
  ultimately show ?thesis by simp
qed

lemma to_double_nonneg: "0 \<le> x \<Longrightarrow> 0 \<le> to_double x"
proof -
  assume x: "0 \<le> x"
  have "0 \<le> round_pos x"
  proof -
    have "of_int 0 \<le> x / pow2 (ulp_exp x)" using x pow2_pos [of "ulp_exp x"] by simp
    then have "0 \<le> round_half_even (x / pow2 (ulp_exp x))" by (rule round_half_even_ge)
    then show ?thesis using pow2_pos [of "ulp_exp x"] by (simp add: round_pos_def)
  qed
  then show ?thesis using x by (simp add: to_double_def)
qed

section \<open>The number of retained coefficients\<close>

lemma n_keep_pos: "0 < n_keep xs r"
  by (simp add: n_keep_def)

lemma n_keep_floor:
  assumes "length xs < 2 ^ 53" and "0 \<le> r"
  shows "n_keep xs r = max 1 \<lfloor>to_double (real (length xs) * r)\<rfloor>"
proof -
  have "real (length xs) < 2 ^ 53" using assms(1) by simp
  then have N: "to_double (real (length xs)) = real (length xs)" by (rule to_double_of_nat)
  have "0 \<le> to_double (real (length xs) * r)"
    using assms(2) by (intro to_double_nonneg) simp
  then show ?thesis by (simp add: n_keep_def N py_int_def)
qed

lemma n_keep_le:
  assumes "xs \<noteq> []" and "length xs < 2 ^ 53" and "0 < r" and "r < 1"
  shows "n_keep xs r \<le> int (length xs)"
proof -
  have N: "real (length xs) < 2 ^ 53" using assms(2) by simp
  have nn: "0 \<le> real (length xs) * r" using assms(3) by simp
  have le: "real (length xs) * r \<le> real (length xs)" using assms(3,4) by (simp add: mult_left_le)
  have "to_double (real (length xs) * r) \<le> of_int (int (length xs))"
    using nn le N by (intro to_double_le_int) simp_all
  then have fl: "\<lfloor>to_double (real (length xs) * r)\<rfloor> \<le> int (length xs)"
    by (simp add: floor_le_iff)
  have "(1::int) \<le> int (length xs)" using assms(1) by (cases xs) simp_all
  with fl show ?thesis
    unfolding n_keep_floor [OF assms(2) less_imp_le [OF assms(3)]]
    by (simp only: max.bounded_iff)
qed

lemma compress_wavelet_indices:
  "env_indices (compress_wavelet A r) =
     map int (drop (length (nd_data A) - nat (n_keep (nd_data A) r))
                   (argsort (map abs (nd_data A))))"
  by (simp add: compress_wavelet_def flatten_def Let_def neg_slice_def n_keep_pos argsort_length)

lemma compress_wavelet_values:
  "env_values (compress_wavelet A r) =
     map (\<lambda>i. nd_data A ! i)
         (drop (length (nd_data A) - nat (n_keep (nd_data A) r))
               (argsort (map abs (nd_data A))))"
  by (simp add: compress_wavelet_def flatten_def Let_def neg_slice_def n_keep_pos argsort_length)

lemma compress_wavelet_length:
  assumes "nd_data A \<noteq> []" and "length (nd_data A) < 2 ^ 53" and "0 < r" and "r < 1"
  shows "int (length (env_indices (compress_wavelet A r))) = n_keep (nd_data A) r"
    and "int (length (env_values (compress_wavelet A r))) = n_keep (nd_data A) r"
  using n_keep_le [OF assms] n_keep_pos [of "nd_data A" r]
  by (simp_all add: compress_wavelet_indices compress_wavelet_values argsort_length)

lemma compress_wavelet_shape: "env_shape (compress_wavelet A r) = nd_shape A"
  by (simp add: compress_wavelet_def Let_def)

lemma compress_wavelet_sizes:
  "env_original_size (compress_wavelet A r) = 8 * int (length (nd_data A))"
  "env_compressed_size (compress_wavelet A r)
     = 16 * int (length (env_indices (compress_wavelet A r)))"
  by (simp_all add: compress_wavelet_def Let_def nbytes_def)

section \<open>Scattering the retained values\<close>

lemma store_all_length: "length (store_all buf ps) = length buf"
  by (induction ps arbitrary: buf) auto

lemma store_all_nth:
  assumes "\<forall>i\<in>set is. i < length buf"
  shows "store_all buf (zip is (map f is)) ! j = (if j \<in> set is then f j else buf ! j)"
  using assms
proof (induction "is" arbitrary: buf)
  case Nil
  then show ?case by simp
next
  case (Cons a as)
  then show ?case by (cases "j \<in> set as") auto
qed

lemma scatter_kept:
  assumes "set K \<subseteq> {0..<length buf}"
  shows "scatter buf (map int K) (map f K) = Inr (store_all buf (zip K (map f K)))"
proof -
  have ok: "list_all (index_ok (length buf)) (map int K)"
    using assms by (auto simp: list_all_iff index_ok_def)
  have "map (norm_index (length buf)) (map int K) = K"
    by (simp add: norm_index_def map_idI)
  with ok show ?thesis by (simp add: scatter_def broadcast_values_def)
qed

lemma decompress_compress_wavelet:
  assumes "wf_ndarray A" and "nd_shape A \<noteq> []"
  shows "decompress_wavelet (compress_wavelet A r) =
           Inr \<lparr> nd_shape = nd_shape A,
                 nd_data = map (\<lambda>j. if int j \<in> set (env_indices (compress_wavelet A r))
                                     then nd_data A ! j else 0)
                               [0..<length (nd_data A)] \<rparr>"
proof -
  define N where "N = length (nd_data A)"
  define K where "K = drop (N - nat (n_keep (nd_data A) r)) (argsort (map abs (nd_data A)))"
  have N: "prod_list (nd_shape A) = N" using assms(1) by (simp add: wf_ndarray_def N_def)
  have sub: "set K \<subseteq> {0..<N}" unfolding K_def N_def by (rule kept_props(2))
  have z: "zeros_prod (env_shape (compress_wavelet A r)) = Inr (replicate N 0)"
    using assms(2) N by (simp add: zeros_prod_def compress_wavelet_shape)
  have i: "env_indices (compress_wavelet A r) = map int K"
    by (simp add: compress_wavelet_indices K_def N_def)
  have v: "env_values (compress_wavelet A r) = map (\<lambda>i. nd_data A ! i) K"
    by (simp add: compress_wavelet_values K_def N_def)
  have sc: "scatter (replicate N 0) (map int K) (map (\<lambda>i. nd_data A ! i) K)
              = Inr (store_all (replicate N 0) (zip K (map (\<lambda>i. nd_data A ! i) K)))"
    using sub by (intro scatter_kept) simp
  have "store_all (replicate N 0) (zip K (map (\<lambda>i. nd_data A ! i) K))
          = map (\<lambda>j. if int j \<in> set (map int K) then nd_data A ! j else 0) [0..<N]"
  proof (rule nth_equalityI)
    show "length (store_all (replicate N 0) (zip K (map (\<lambda>i. nd_data A ! i) K)))
            = length (map (\<lambda>j. if int j \<in> set (map int K) then nd_data A ! j else 0) [0..<N])"
      by (simp add: store_all_length)
  next
    fix j assume "j < length (store_all (replicate N 0) (zip K (map (\<lambda>i. nd_data A ! i) K)))"
    then have j: "j < N" by (simp add: store_all_length)
    have "\<forall>i\<in>set K. i < length (replicate N (0::real))" using sub by auto
    from store_all_nth [OF this, of "\<lambda>i. nd_data A ! i" j] j
    show "store_all (replicate N 0) (zip K (map (\<lambda>i. nd_data A ! i) K)) ! j
            = map (\<lambda>j. if int j \<in> set (map int K) then nd_data A ! j else 0) [0..<N] ! j"
      by (auto simp: image_iff)
  qed
  with z i v sc show ?thesis
    by (simp add: decompress_wavelet_def compress_wavelet_shape N_def)
qed

lemma roundtrip_shape:
  assumes "wf_ndarray A" and "nd_shape A \<noteq> []" and "0 < r" and "r < 1"
    and "m \<in> {''wavelet'', ''pca'', ''svd''}"
  shows "\<exists>env B. snd (compress_skymap A m r) = Inr env \<and>
           snd (decompress_skymap env) = Inr B \<and> nd_shape B = nd_shape A"
proof -
  have "snd (compress_skymap A m r) = Inr (compress_wavelet A r)"
    using assms(3-5) by (auto simp: compress_skymap_def compress_pca_def compress_svd_def)
  moreover have "snd (decompress_skymap (compress_wavelet A r))
                   = decompress_wavelet (compress_wavelet A r)"
    by (simp add: decompress_skymap_def compress_wavelet_def Let_def)
  ultimately show ?thesis
    using decompress_compress_wavelet [OF assms(1,2), of r] by simp
qed

section \<open>Size of the envelope\<close>

text \<open>
  C3, as the code has it. For a non-empty array of \<open>N\<close> elements (\<open>N < 2 ^ 53\<close>, so
  that \<open>N\<close> is a double) and a ratio \<open>r\<close> strictly between 0 and 1, \<open>compress_skymap\<close>
  (under each of its three method names) returns an envelope with exactly
  \<open>max(1, floor(p))\<close> indices and as many values, where \<open>p\<close> is the double nearest to
  \<open>N * r\<close>, not \<open>N * r\<close> itself; for \<open>N = 1000\<close> and the float \<open>0.1\<close> that is 100 of
  each.
\<close>

theorem compress_keeps_rounded_n_keep:
  assumes "nd_data A \<noteq> []" and "length (nd_data A) < 2 ^ 53" and "0 < r" and "r < 1"
    and "m \<in> {''wavelet'', ''pca'', ''svd''}"
  shows "snd (compress_skymap A m r) = Inr (compress_wavelet A r) \<and>
         int (length (env_indices (compress_wavelet A r)))
           = max 1 \<lfloor>to_double (real (length (nd_data A)) * r)\<rfloor> \<and>
         int (length (env_values (compress_wavelet A r)))
           = max 1 \<lfloor>to_double (real (length (nd_data A)) * r)\<rfloor> \<and>
         (length (nd_data A) = 1000 \<and> r = to_double (1 / 10) \<longrightarrow>
            length (env_indices (compress_wavelet A r)) = 100 \<and>
            length (env_values (compress_wavelet A r)) = 100)"
proof -
  have ret: "snd (compress_skymap A m r) = Inr (compress_wavelet A r)"
    using assms(3-5) by (auto simp: compress_skymap_def compress_pca_def compress_svd_def)
  have eq: "n_keep (nd_data A) r = max 1 \<lfloor>to_double (real (length (nd_data A)) * r)\<rfloor>"
    using assms(2,3) by (intro n_keep_floor) simp_all
  have li: "int (length (env_indices (compress_wavelet A r)))
              = max 1 \<lfloor>to_double (real (length (nd_data A)) * r)\<rfloor>"
    using compress_wavelet_length(1) [OF assms(1-4)] eq by simp
  have lv: "int (length (env_values (compress_wavelet A r)))
              = max 1 \<lfloor>to_double (real (length (nd_data A)) * r)\<rfloor>"
    using compress_wavelet_length(2) [OF assms(1-4)] eq by simp
  have ex: "length (env_indices (compress_wavelet A r)) = 100 \<and>
            length (env_values (compress_wavelet A r)) = 100"
    if "length (nd_data A) = 1000" and "r = to_double (1 / 10)"
  proof -
    have "\<lfloor>to_double (1000 * to_double (1 / 10))\<rfloor> = 100" by code_simp
    then have "max 1 \<lfloor>to_double (real (length (nd_data A)) * r)\<rfloor> = 100"
      unfolding that by simp
    with li lv show ?thesis by simp
  qed
  from ret li lv ex show ?thesis by blast
qed

theorem compress_keeps_rounded_n_keep_witness:
  "nd_data thousand_map \<noteq> [] \<and> length (nd_data thousand_map) < 2 ^ 53 \<and>
   0 < to_double (1 / 10) \<and> to_double (1 / 10) < 1 \<and>
   length (nd_data thousand_map) = 1000 \<and>
   snd (compress_skymap thousand_map ''wavelet'' (to_double (1 / 10)))
     = Inr (compress_wavelet thousand_map (to_double (1 / 10))) \<and>
   length (env_indices (compress_wavelet thousand_map (to_double (1 / 10)))) = 100 \<and>
   length (env_values (compress_wavelet thousand_map (to_double (1 / 10)))) = 100"
proof -
  have d: "nd_data thousand_map \<noteq> []" and l: "length (nd_data thousand_map) = 1000"
    by (simp_all add: thousand_map_def)
  have b: "length (nd_data thousand_map) < 2 ^ 53" unfolding l by simp
  have "to_double (1 / 10) = 3602879701896397 / 36028797018963968" by code_simp
  then have r: "0 < to_double (1 / 10)" "to_double (1 / 10) < 1" by simp_all
  from compress_keeps_rounded_n_keep [OF d b r, of "''wavelet''"] d b r l
  show ?thesis by blast
qed

text \<open>
  The claim C3 itself fails, however \<open>N * r\<close> is read. With the float \<open>0.6\<close> and five
  elements the code keeps 3, where the floor of five times that float is 2; with the
  float \<open>0.58\<close> and fifty elements the code keeps 28, where \<open>floor(50 * 0.58)\<close> is 29.
\<close>

theorem exact_product_miscounts:
  "length (env_indices (compress_wavelet example_map (to_double (3 / 5)))) = 3 \<and>
   n_keep_spec (length (nd_data example_map)) (to_double (3 / 5)) = 2 \<and>
   length (env_indices (compress_wavelet fifty_map (to_double (29 / 50)))) = 28 \<and>
   n_keep_spec (length (nd_data fifty_map)) (29 / 50) = 29"
  by code_simp

section \<open>Argument validation\<close>

text \<open>
  C8. Whatever the array, a ratio that is not strictly between 0 and 1 (such as 0, 1 or
  -0.1) makes \<open>compress_skymap\<close> raise \<open>CompressionError\<close> with the ratio message, and
  a method name other than the three known ones (such as "bogus") makes it raise
  \<open>CompressionError\<close>, with the unknown-method message when the ratio is valid. Neither
  result depends on the array.
\<close>

theorem compress_rejects_bad_arguments:
  "(\<not> (0 < r \<and> r < 1) \<longrightarrow>
      compress_skymap A m r
        = ([], Inl (CompressionError ''Compression ratio must be between 0 and 1''))) \<and>
   (0 < r \<and> r < 1 \<and> m \<notin> {''wavelet'', ''pca'', ''svd''} \<longrightarrow>
      compress_skymap A m r
        = ([], Inl (CompressionError (''Unknown compression method: '' @ m)))) \<and>
   (m \<notin> {''wavelet'', ''pca'', ''svd''} \<longrightarrow>
      (\<exists>msg. compress_skymap A m r = ([], Inl (CompressionError msg)))) \<and>
   compress_skymap A m 0
     = ([], Inl (CompressionError ''Compression ratio must be between 0 and 1'')) \<and>
   compress_skymap A m 1
     = ([], Inl (CompressionError ''Compression ratio must be between 0 and 1'')) \<and>
   compress_skymap A m (- (1 / 10))
     = ([], Inl (CompressionError ''Compression ratio must be between 0 and 1''))"
  by (simp add: compress_skymap_def)

theorem compress_rejects_bad_arguments_witness:
  "\<not> ((0::real) < 3 / 2 \<and> (3 / 2 :: real) < 1) \<and>
   compress_skymap example_map ''wavelet'' (3 / 2)
     = ([], Inl (CompressionError ''Compression ratio must be between 0 and 1'')) \<and>
   (0::real) < 1 / 2 \<and> (1 / 2 :: real) < 1 \<and> ''bogus'' \<notin> {''wavelet'', ''pca'', ''svd''} \<and>
   compress_skymap example_map ''bogus'' (1 / 2)
     = ([], Inl (CompressionError ''Unknown compression method: bogus''))"
  using compress_rejects_bad_arguments [of "3 / 2" example_map "''wavelet''"]
    compress_rejects_bad_arguments [of "1 / 2" example_map "''bogus''"]
  by simp

section \<open>The placeholder methods\<close>

text \<open>
  C10. For a ratio strictly between 0 and 1, \<open>compress_skymap\<close> with method "pca" or
  "svd" returns the envelope of the wavelet compressor: its method field is "wavelet",
  \<open>decompress_skymap\<close> dispatches it to the wavelet path (without a warning), and it is
  the same envelope that the method "wavelet" returns, so the requested name cannot be
  read back from it.
\<close>

theorem placeholder_envelope_is_tagged_wavelet:
  assumes "0 < r" and "r < 1" and "m = ''pca'' \<or> m = ''svd''"
  shows "snd (compress_skymap A m r) = Inr (compress_wavelet A r) \<and>
         env_method (compress_wavelet A r) = Some ''wavelet'' \<and>
         decompress_skymap (compress_wavelet A r)
           = ([], decompress_wavelet (compress_wavelet A r)) \<and>
         snd (compress_skymap A m r) = snd (compress_skymap A ''wavelet'' r)"
proof -
  have m: "env_method (compress_wavelet A r) = Some ''wavelet''"
    by (simp add: compress_wavelet_def Let_def)
  have "snd (compress_skymap A m r) = Inr (compress_wavelet A r)"
    using assms by (auto simp: compress_skymap_def compress_pca_def compress_svd_def)
  moreover have "snd (compress_skymap A ''wavelet'' r) = Inr (compress_wavelet A r)"
    using assms(1,2) by (simp add: compress_skymap_def)
  moreover have "decompress_skymap (compress_wavelet A r)
           = ([], decompress_wavelet (compress_wavelet A r))"
    by (simp add: decompress_skymap_def m)
  ultimately show ?thesis using m by simp
qed

theorem placeholder_envelope_is_tagged_wavelet_witness:
  "(0::real) < 2 / 5 \<and> (2 / 5 :: real) < 1 \<and>
   snd (compress_skymap example_map ''pca'' (2 / 5))
     = Inr (compress_wavelet example_map (2 / 5)) \<and>
   env_method (compress_wavelet example_map (2 / 5)) = Some ''wavelet'' \<and>
   decompress_skymap (compress_wavelet example_map (2 / 5))
     = ([], decompress_wavelet (compress_wavelet example_map (2 / 5))) \<and>
   snd (compress_skymap example_map ''pca'' (2 / 5))
     = snd (compress_skymap example_map ''wavelet'' (2 / 5))"
proof -
  have r: "(0::real) < 2 / 5" "(2 / 5 :: real) < 1" by simp_all
  from placeholder_envelope_is_tagged_wavelet [OF r, of "''pca''" example_map]
  show ?thesis using r by blast
qed

text \<open>
  C4, as the code has it. With method "pca" or "svd" and a ratio strictly between 0 and
  1, \<open>compress_skymap\<close> raises nothing: it emits one \<open>UserWarning\<close> saying that the
  method is not yet fully implemented and returns the wavelet compressor's envelope.
\<close>

theorem placeholder_methods_warn_and_fall_back:
  assumes "0 < r" and "r < 1"
  shows "compress_skymap A ''pca'' r
           = ([UserWarning ''PCA compression is not yet fully implemented''],
              Inr (compress_wavelet A r)) \<and>
         compress_skymap A ''svd'' r
           = ([UserWarning ''SVD compression is not yet fully implemented''],
              Inr (compress_wavelet A r))"
  using assms by (simp add: compress_skymap_def compress_pca_def compress_svd_def)

theorem placeholder_methods_warn_and_fall_back_witness:
  "(0::real) < 1 / 2 \<and> (1 / 2 :: real) < 1 \<and>
   compress_skymap single_map ''pca'' (1 / 2)
     = ([UserWarning ''PCA compression is not yet fully implemented''],
        Inr (compress_wavelet single_map (1 / 2))) \<and>
   compress_skymap single_map ''svd'' (1 / 2)
     = ([UserWarning ''SVD compression is not yet fully implemented''],
        Inr (compress_wavelet single_map (1 / 2)))"
  using placeholder_methods_warn_and_fall_back [of "1 / 2" single_map]
  by simp

text \<open>
  The claim C4 itself fails: on the five-element example with method "pca" no error is
  raised, and the result is the wavelet envelope.
\<close>

theorem pca_does_not_raise:
  "compress_skymap example_map ''pca'' (2 / 5)
     = ([UserWarning ''PCA compression is not yet fully implemented''],
        Inr \<lparr> env_method = Some ''wavelet'', env_shape = [5], env_indices = [2, 0],
              env_values = [3, 5], env_compression_ratio = 2 / 5,
              env_original_size = 40, env_compressed_size = 32 \<rparr>)"
  by code_simp

section \<open>Which coefficients are retained\<close>

lemmas eval_defs =
  compress_skymap_def compress_wavelet_def decompress_skymap_def decompress_wavelet_def
  flatten_def nbytes_def neg_slice_def argsort_def zeros_prod_def
  scatter_def broadcast_values_def index_ok_def norm_index_def upt_conv_Cons Let_def

text \<open>
  C1, as the code has it. For a non-empty array of \<open>N\<close> elements (\<open>N < 2 ^ 53\<close>) and a
  ratio \<open>r\<close> strictly between 0 and 1, the wavelet (magnitude truncation) compressor
  retains \<open>max(1, floor(p))\<close> distinct positions of the array, \<open>p\<close> being the double
  nearest to \<open>N * r\<close>, together with the signed values found there, and no position left
  out holds a value of larger absolute magnitude than a retained one. Which of several
  positions of equal magnitude is retained is not promised. For \<open>A = [5, -1, 3, 0, 2]\<close>
  and the float \<open>0.4\<close> the retained (index, value) pairs are (0, 5) and (2, 3), and
  decompressing the envelope gives \<open>[5, 0, 3, 0, 0]\<close>.
\<close>

theorem compress_keeps_largest_magnitudes:
  assumes "nd_data A \<noteq> []" and "length (nd_data A) < 2 ^ 53" and "0 < r" and "r < 1"
  shows "int (length (env_indices (compress_wavelet A r)))
           = max 1 \<lfloor>to_double (real (length (nd_data A)) * r)\<rfloor> \<and>
         distinct (env_indices (compress_wavelet A r)) \<and>
         (\<forall>i\<in>set (env_indices (compress_wavelet A r)). 0 \<le> i \<and> i < int (length (nd_data A))) \<and>
         env_values (compress_wavelet A r)
           = map (\<lambda>i. nd_data A ! nat i) (env_indices (compress_wavelet A r)) \<and>
         (\<forall>i\<in>set (env_indices (compress_wavelet A r)). \<forall>j<length (nd_data A).
             int j \<notin> set (env_indices (compress_wavelet A r)) \<longrightarrow>
             \<bar>nd_data A ! j\<bar> \<le> \<bar>nd_data A ! nat i\<bar>) \<and>
         set (zip (env_indices (compress_wavelet example_map (to_double (2 / 5))))
                  (env_values (compress_wavelet example_map (to_double (2 / 5)))))
           = {(0, 5), (2, 3)} \<and>
         decompress_skymap (compress_wavelet example_map (to_double (2 / 5)))
           = ([], Inr \<lparr> nd_shape = [5], nd_data = [5, 0, 3, 0, 0] \<rparr>)"
proof -
  define K where
    "K = drop (length (nd_data A) - nat (n_keep (nd_data A) r)) (argsort (map abs (nd_data A)))"
  have i: "env_indices (compress_wavelet A r) = map int K"
    by (simp add: compress_wavelet_indices K_def)
  have v: "env_values (compress_wavelet A r) = map (\<lambda>i. nd_data A ! i) K"
    by (simp add: compress_wavelet_values K_def)
  have eq: "n_keep (nd_data A) r = max 1 \<lfloor>to_double (real (length (nd_data A)) * r)\<rfloor>"
    using assms(2,3) by (intro n_keep_floor) simp_all
  have len: "int (length (env_indices (compress_wavelet A r)))
               = max 1 \<lfloor>to_double (real (length (nd_data A)) * r)\<rfloor>"
    using compress_wavelet_length(1) [OF assms] eq by simp
  have dist: "distinct (env_indices (compress_wavelet A r))"
    unfolding i K_def by (simp add: distinct_map kept_props(1))
  have sub: "set K \<subseteq> {0..<length (nd_data A)}"
    unfolding K_def by (rule kept_props(2))
  then have range: "\<forall>i\<in>set (env_indices (compress_wavelet A r)).
                      0 \<le> i \<and> i < int (length (nd_data A))"
    unfolding i by auto
  have vals: "env_values (compress_wavelet A r)
                = map (\<lambda>i. nd_data A ! nat i) (env_indices (compress_wavelet A r))"
    unfolding i v by simp
  have dom: "\<forall>i\<in>set (env_indices (compress_wavelet A r)). \<forall>j<length (nd_data A).
               int j \<notin> set (env_indices (compress_wavelet A r)) \<longrightarrow>
               \<bar>nd_data A ! j\<bar> \<le> \<bar>nd_data A ! nat i\<bar>"
  proof (intro ballI allI impI)
    fix i j
    assume a: "i \<in> set (env_indices (compress_wavelet A r))" "j < length (nd_data A)"
      "int j \<notin> set (env_indices (compress_wavelet A r))"
    from a(1) obtain i' where i': "i = int i'" "i' \<in> set K" unfolding i by auto
    from a(3) have "j \<notin> set K" unfolding i by auto
    from kept_props(3) [OF i'(2) [unfolded K_def] a(2) this [unfolded K_def]]
    show "\<bar>nd_data A ! j\<bar> \<le> \<bar>nd_data A ! nat i\<bar>" using i'(1) by simp
  qed
  have e: "compress_wavelet example_map (to_double (2 / 5))
             = \<lparr> env_method = Some ''wavelet'', env_shape = [5], env_indices = [2, 0],
                 env_values = [3, 5], env_compression_ratio = to_double (2 / 5),
                 env_original_size = 40, env_compressed_size = 32 \<rparr>"
    by code_simp
  have ex1: "set (zip (env_indices (compress_wavelet example_map (to_double (2 / 5))))
                  (env_values (compress_wavelet example_map (to_double (2 / 5)))))
               = {(0, 5), (2, 3)}"
    unfolding e by auto
  have ex2: "decompress_skymap (compress_wavelet example_map (to_double (2 / 5)))
           = ([], Inr \<lparr> nd_shape = [5], nd_data = [5, 0, 3, 0, 0] \<rparr>)"
    unfolding e by (simp add: eval_defs eval_nat_numeral)
  from len dist range vals dom ex1 ex2 show ?thesis by blast
qed

theorem compress_keeps_largest_magnitudes_witness:
  "nd_data example_map \<noteq> [] \<and> length (nd_data example_map) < 2 ^ 53 \<and>
   0 < to_double (2 / 5) \<and> to_double (2 / 5) < 1 \<and>
   set (env_indices (compress_wavelet example_map (to_double (2 / 5)))) = {0, 2} \<and>
   int (length (env_indices (compress_wavelet example_map (to_double (2 / 5))))) = 2 \<and>
   distinct (env_indices (compress_wavelet example_map (to_double (2 / 5)))) \<and>
   env_values (compress_wavelet example_map (to_double (2 / 5)))
     = map (\<lambda>i. nd_data example_map ! nat i)
           (env_indices (compress_wavelet example_map (to_double (2 / 5)))) \<and>
   \<bar>nd_data example_map ! 4\<bar> \<le> \<bar>nd_data example_map ! nat 2\<bar>"
proof -
  have l: "length (nd_data example_map) = 5" by (simp add: example_map_def)
  have "to_double (2 / 5) = 3602879701896397 / 9007199254740992" by code_simp
  then have r: "0 < to_double (2 / 5)" "to_double (2 / 5) < 1" by simp_all
  have h: "nd_data example_map \<noteq> []" "length (nd_data example_map) < 2 ^ 53"
    by (simp_all add: example_map_def)
  have "env_indices (compress_wavelet example_map (to_double (2 / 5))) = [2, 0]"
    by code_simp
  then have s: "set (env_indices (compress_wavelet example_map (to_double (2 / 5)))) = {0, 2}"
    by auto
  note t = compress_keeps_largest_magnitudes [OF h r]
  have "\<forall>i\<in>{0, 2}. \<forall>j<5. int j \<notin> {0, 2::int} \<longrightarrow>
          \<bar>nd_data example_map ! j\<bar> \<le> \<bar>nd_data example_map ! nat i\<bar>"
    using t unfolding s l by blast
  then have "\<bar>nd_data example_map ! 4\<bar> \<le> \<bar>nd_data example_map ! nat 2\<bar>"
    by simp
  moreover have "int (length (env_indices (compress_wavelet example_map (to_double (2 / 5))))) = 2"
    using s t by (simp add: distinct_card [symmetric])
  ultimately show ?thesis using t h r s by blast
qed

text \<open>
  The claim C1 itself fails where magnitudes tie: of the two equal elements of \<open>[1, 1]\<close>
  with ratio 0.5 the code retains the one at index 1, where the specification's rule
  (ties by ascending original index) selects index 0.
\<close>

theorem tie_break_counterexample:
  "env_indices (compress_wavelet tied_map (1 / 2)) = [1] \<and>
   spec_select (nd_data tied_map) (1 / 2) = [0]"
  by code_simp

section \<open>Invariants of the envelope\<close>

text \<open>
  C5, as the code has it. Every envelope returned by \<open>compress_skymap\<close> for a
  well-formed array has as many indices as values, its indices are pairwise distinct and
  lie in \<open>[0, product(shape))\<close>, and they are listed by ascending magnitude of the
  element they point to (not by ascending index).
\<close>

theorem envelope_indices_distinct_in_range:
  assumes "wf_ndarray A" and "snd (compress_skymap A m r) = Inr env"
  shows "length (env_indices env) = length (env_values env) \<and>
         distinct (env_indices env) \<and>
         (\<forall>i\<in>set (env_indices env). 0 \<le> i \<and> i < int (prod_list (env_shape env))) \<and>
         sorted (map (\<lambda>i. \<bar>nd_data A ! nat i\<bar>) (env_indices env))"
proof -
  define K where
    "K = drop (length (nd_data A) - nat (n_keep (nd_data A) r)) (argsort (map abs (nd_data A)))"
  have env: "env = compress_wavelet A r"
    using assms(2)
    by (auto simp: compress_skymap_def compress_pca_def compress_svd_def split: if_splits)
  have i: "env_indices env = map int K"
    by (simp add: env compress_wavelet_indices K_def)
  have v: "env_values env = map (\<lambda>i. nd_data A ! i) K"
    by (simp add: env compress_wavelet_values K_def)
  have N: "prod_list (env_shape env) = length (nd_data A)"
    using assms(1) by (simp add: env compress_wavelet_shape wf_ndarray_def)
  have sub: "set K \<subseteq> {0..<length (nd_data A)}"
    unfolding K_def by (rule kept_props(2))
  have "length (env_indices env) = length (env_values env)"
    by (simp add: i v)
  moreover have "distinct (env_indices env)"
    unfolding i K_def by (simp add: distinct_map kept_props(1))
  moreover have "\<forall>i\<in>set (env_indices env). 0 \<le> i \<and> i < int (prod_list (env_shape env))"
    unfolding N i using sub by auto
  moreover have "sorted (map (\<lambda>i. \<bar>nd_data A ! nat i\<bar>) (env_indices env))"
    using kept_props(4) [of "nd_data A" "length (nd_data A) - nat (n_keep (nd_data A) r)"]
    by (simp add: i K_def comp_def)
  ultimately show ?thesis by blast
qed

theorem envelope_indices_distinct_in_range_witness:
  "wf_ndarray example_map \<and>
   snd (compress_skymap example_map ''svd'' (2 / 5))
     = Inr (compress_wavelet example_map (2 / 5)) \<and>
   length (env_indices (compress_wavelet example_map (2 / 5)))
     = length (env_values (compress_wavelet example_map (2 / 5))) \<and>
   distinct (env_indices (compress_wavelet example_map (2 / 5))) \<and>
   sorted (map (\<lambda>i. \<bar>nd_data example_map ! nat i\<bar>)
               (env_indices (compress_wavelet example_map (2 / 5))))"
proof -
  have w: "wf_ndarray example_map" by (simp add: wf_ndarray_def example_map_def)
  have c: "snd (compress_skymap example_map ''svd'' (2 / 5))
             = Inr (compress_wavelet example_map (2 / 5))"
    by (simp add: compress_skymap_def compress_svd_def)
  from envelope_indices_distinct_in_range [OF w c] w c show ?thesis by blast
qed

text \<open>
  The claim C5 itself fails: for \<open>[5, -1, 3, 0, 2]\<close> and ratio 0.4 the indices of the
  envelope are \<open>[2, 0]\<close>, which is not ascending.
\<close>

theorem indices_not_ascending:
  "snd (compress_skymap example_map ''wavelet'' (2 / 5))
     = Inr (compress_wavelet example_map (2 / 5)) \<and>
   env_indices (compress_wavelet example_map (2 / 5)) = [2, 0] \<and>
   \<not> sorted_wrt (<) (env_indices (compress_wavelet example_map (2 / 5)))"
  by code_simp

section \<open>Empty arrays\<close>

text \<open>
  C7, as the code has it. An array with zero elements is not rejected: with a ratio
  strictly between 0 and 1 and one of the three known method names, \<open>compress_skymap\<close>
  raises nothing and returns an envelope with no indices and no values, whose two size
  fields are 0.
\<close>

theorem compress_accepts_empty_array:
  assumes "nd_data A = []" and "0 < r" and "r < 1"
    and "m \<in> {''wavelet'', ''pca'', ''svd''}"
  shows "snd (compress_skymap A m r) = Inr (compress_wavelet A r) \<and>
         env_indices (compress_wavelet A r) = [] \<and>
         env_values (compress_wavelet A r) = [] \<and>
         env_original_size (compress_wavelet A r) = 0 \<and>
         env_compressed_size (compress_wavelet A r) = 0"
proof -
  have "snd (compress_skymap A m r) = Inr (compress_wavelet A r)"
    using assms(2-4) by (auto simp: compress_skymap_def compress_pca_def compress_svd_def)
  moreover have "argsort (map abs (nd_data A)) = []"
    using assms(1) by (simp add: argsort_def)
  ultimately show ?thesis
    using assms(1)
    by (simp add: compress_wavelet_indices compress_wavelet_values compress_wavelet_sizes)
qed

theorem compress_accepts_empty_array_witness:
  "nd_data empty_map = [] \<and> (0::real) < 1 / 2 \<and> (1 / 2 :: real) < 1 \<and>
   snd (compress_skymap empty_map ''svd'' (1 / 2)) = Inr (compress_wavelet empty_map (1 / 2)) \<and>
   env_indices (compress_wavelet empty_map (1 / 2)) = [] \<and>
   env_values (compress_wavelet empty_map (1 / 2)) = []"
proof -
  have h: "nd_data empty_map = []" by (simp add: empty_map_def)
  from compress_accepts_empty_array [OF h, of "1 / 2" "''svd''"] h show ?thesis by simp
qed

text \<open>
  The claim C7 itself fails: the empty one-dimensional array is compressed without any
  error.
\<close>

theorem empty_array_not_rejected:
  "compress_skymap empty_map ''wavelet'' (1 / 2)
     = ([], Inr \<lparr> env_method = Some ''wavelet'', env_shape = [0], env_indices = [],
                   env_values = [], env_compression_ratio = 1 / 2,
                   env_original_size = 0, env_compressed_size = 0 \<rparr>)"
  by code_simp

section \<open>The reported compression ratio\<close>

text \<open>
  C9, as the code has it. For the envelope of a non-empty array of \<open>N\<close> elements
  (\<open>N < 2 ^ 53\<close>) and a ratio strictly between 0 and 1, \<open>original_size_bytes\<close> is positive
  and the reported \<open>compression_ratio\<close> is the double nearest to
  \<open>(16 * n_keep) / (8 * N)\<close>, where \<open>n_keep\<close> is the number of retained coefficients
  (each costs an 8-byte index and an 8-byte value). It lies in \<open>[0, 2]\<close>, and it is at
  most 1 whenever \<open>2 * n_keep \<le> N\<close>.
\<close>

theorem compression_ratio_at_most_two:
  assumes "nd_data A \<noteq> []" and "length (nd_data A) < 2 ^ 53" and "0 < r" and "r < 1"
  shows "0 < original_size_bytes (get_compression_info (compress_wavelet A r)) \<and>
         info_compression_ratio (get_compression_info (compress_wavelet A r))
           = to_double
               (real_of_int (16 * max 1 \<lfloor>to_double (real (length (nd_data A)) * r)\<rfloor>)
                 / real_of_int (8 * int (length (nd_data A)))) \<and>
         0 \<le> info_compression_ratio (get_compression_info (compress_wavelet A r)) \<and>
         info_compression_ratio (get_compression_info (compress_wavelet A r)) \<le> 2 \<and>
         (2 * max 1 \<lfloor>to_double (real (length (nd_data A)) * r)\<rfloor> \<le> int (length (nd_data A))
            \<longrightarrow> info_compression_ratio (get_compression_info (compress_wavelet A r)) \<le> 1)"
proof -
  define N where "N = length (nd_data A)"
  define n where "n = max 1 \<lfloor>to_double (real N * r)\<rfloor>"
  define x where "x = real_of_int (16 * n) / real_of_int (8 * int N)"
  have N: "0 < N" using assms(1) by (simp add: N_def)
  have eq: "n_keep (nd_data A) r = n"
    unfolding n_def N_def using assms(2,3) by (intro n_keep_floor) simp_all
  have n: "int (length (env_indices (compress_wavelet A r))) = n"
    using compress_wavelet_length(1) [OF assms] eq by simp
  have n1: "1 \<le> n" by (simp add: n_def)
  have nN: "n \<le> int N"
    using n_keep_le [OF assms] eq by (simp add: N_def)
  have orig: "original_size_bytes (get_compression_info (compress_wavelet A r)) = 8 * int N"
    by (simp add: get_compression_info_def Let_def compress_wavelet_sizes N_def)
  have ratio: "info_compression_ratio (get_compression_info (compress_wavelet A r)) = to_double x"
    using N by (simp add: get_compression_info_def Let_def compress_wavelet_sizes n N_def x_def)
  have x: "x = 2 * real_of_int n / real N" by (simp add: x_def)
  have x0: "0 \<le> x" using n1 N by (simp add: x)
  have x2: "x \<le> 2"
  proof -
    have "real_of_int n \<le> real N" using nN by linarith
    then show ?thesis using N by (simp add: x divide_le_eq)
  qed
  have xb: "x < 2 ^ 53" using x2 by simp
  have r0: "0 \<le> to_double x" using x0 by (rule to_double_nonneg)
  have r2: "to_double x \<le> 2"
    using to_double_le_int [OF x0 xb, of 2] x2 by simp
  have r1: "to_double x \<le> 1" if "2 * n \<le> int N"
  proof -
    have "2 * real_of_int n \<le> real N" using that by linarith
    then have "x \<le> 1" using N by (simp add: x divide_le_eq)
    with to_double_le_int [OF x0 xb, of 1] show ?thesis by simp
  qed
  from orig N ratio r0 r2 r1 show ?thesis
    unfolding x_def n_def N_def by simp
qed

theorem compression_ratio_at_most_two_witness:
  "nd_data example_map \<noteq> [] \<and> length (nd_data example_map) < 2 ^ 53 \<and>
   0 < to_double (2 / 5) \<and> to_double (2 / 5) < 1 \<and>
   2 * max 1 \<lfloor>to_double (real (length (nd_data example_map)) * to_double (2 / 5))\<rfloor>
     \<le> int (length (nd_data example_map)) \<and>
   info_compression_ratio (get_compression_info (compress_wavelet example_map (to_double (2 / 5))))
     \<le> 1 \<and>
   info_compression_ratio (get_compression_info (compress_wavelet example_map (to_double (2 / 5))))
     \<le> 2"
proof -
  have h: "nd_data example_map \<noteq> []" "length (nd_data example_map) < 2 ^ 53"
    by (simp_all add: example_map_def)
  have l: "length (nd_data example_map) = 5" by (simp add: example_map_def)
  have "to_double (2 / 5) = 3602879701896397 / 9007199254740992" by code_simp
  then have r: "0 < to_double (2 / 5)" "to_double (2 / 5) < 1" by simp_all
  have "\<lfloor>to_double (5 * to_double (2 / 5))\<rfloor> = 2" by code_simp
  then have k: "2 * max 1 \<lfloor>to_double (real (length (nd_data example_map)) * to_double (2 / 5))\<rfloor>
                  \<le> int (length (nd_data example_map))"
    unfolding l by simp
  from compression_ratio_at_most_two [OF h r] h r k show ?thesis by blast
qed

text \<open>
  The claim C9 itself fails: for the one-element array \<open>[5]\<close> and ratio 0.5 the
  original size is 8 bytes, the compressed size 16 bytes, and the reported ratio 2.
\<close>

theorem compression_ratio_exceeds_one:
  "snd (compress_skymap single_map ''wavelet'' (1 / 2))
     = Inr (compress_wavelet single_map (1 / 2)) \<and>
   original_size_bytes (get_compression_info (compress_wavelet single_map (1 / 2))) = 8 \<and>
   compressed_size_bytes (get_compression_info (compress_wavelet single_map (1 / 2))) = 16 \<and>
   info_compression_ratio (get_compression_info (compress_wavelet single_map (1 / 2))) = 2"
  by code_simp

section \<open>Decompression\<close>

text \<open>
  C2 at a 0-d array. The array \<open>np.array(5.0)\<close> has shape \<open>()\<close> and one element;
  \<open>compress_skymap\<close> accepts it, and \<open>decompress_skymap\<close> of the envelope raises
  \<open>TypeError\<close> instead of returning an array of shape \<open>()\<close>. (For every array with
  at least one dimension the shape is restored: \<open>roundtrip_shape\<close>.)
\<close>

theorem zero_dim_roundtrip_raises:
  "wf_ndarray zero_dim_map \<and> nd_data zero_dim_map \<noteq> [] \<and>
   compress_skymap zero_dim_map ''wavelet'' (1 / 2)
     = ([], Inr (compress_wavelet zero_dim_map (1 / 2))) \<and>
   decompress_skymap (compress_wavelet zero_dim_map (1 / 2)) = ([], Inl TypeError)"
  by (simp add: compress_skymap_def decompress_skymap_def decompress_wavelet_def
      zeros_prod_def compress_wavelet_def Let_def wf_ndarray_def zero_dim_map_def)

text \<open>
  C6 at two malformed envelopes. With index 5 for a shape of 3 elements,
  \<open>decompress_skymap\<close> raises numpy's \<open>IndexError\<close>, not \<open>CompressionError\<close>; with two
  indices and one value it raises nothing and stores the value at both indices.
\<close>

theorem decompress_does_not_validate:
  "decompress_skymap out_of_range_envelope = ([], Inl IndexError) \<and>
   decompress_skymap mismatched_envelope
     = ([], Inr \<lparr> nd_shape = [3], nd_data = [7, 7, 0] \<rparr>)"
  by (simp add: eval_defs out_of_range_envelope_def mismatched_envelope_def eval_nat_numeral)

end
